theory Spec2Isabelle
  imports Main
begin

section \<open>Session lifecycle of \<open>venv/main.py\<close>\<close>

subsection \<open>Python values used by the code\<close>

text \<open>
  \<open>str.split(sep)\<close> for a separator of one character: the text is cut at every
  occurrence of the separator, empty pieces are kept, and a text without the separator
  gives the one-element list holding the text itself.
\<close>

fun split_acc :: "char \<Rightarrow> string \<Rightarrow> string \<Rightarrow> string list" where
  "split_acc c acc [] = [rev acc]"
| "split_acc c acc (x # xs) =
     (if x = c then rev acc # split_acc c [] xs else split_acc c (x # acc) xs)"

definition split_on :: "char \<Rightarrow> string \<Rightarrow> string list" where
  "split_on c s = split_acc c [] s"

text \<open>\<open>str.startswith(prefix)\<close>.\<close>

definition startswith :: "string \<Rightarrow> string \<Rightarrow> bool" where
  "startswith s p = (take (length p) s = p)"

text \<open>
  The exceptions that leave a function of the code: \<open>IndexError\<close> of a list read out of
  range, and \<open>sqlite3.OperationalError\<close> of a database that cannot be opened. Indexing a
  Python list with a non-negative index raises \<open>IndexError\<close> out of range.
\<close>

datatype py_error = IndexError | OperationalError

definition item :: "'a list \<Rightarrow> nat \<Rightarrow> py_error + 'a" where
  "item xs i = (if i < length xs then Inr (xs ! i) else Inl IndexError)"

subsection \<open>The request, as far as the session code reads it\<close>

text \<open>
  Of the request the code reads the cookie \<open>cookies_accepted\<close>
  (\<open>request.cookies.get\<close>, absent is \<open>None\<close>), \<open>request.client.host\<close>
  (\<open>request.client\<close> may be \<open>None\<close>) and the header \<open>user-agent\<close>.
\<close>

record request =
  cookies_accepted :: "string option"
  client_host :: "string option"
  user_agent_header :: "string option"

subsection \<open>The consent gate\<close>

text \<open>
  \<open>can_set_session_cookies\<close>, lines 86 to 96. The default of the cookie lookup is
  \<open>"false"\<close>; the selected types are the pieces, cut at commas, of element 1 of the
  text cut at colons.
\<close>

definition can_set_session_cookies :: "request \<Rightarrow> py_error + bool" where
  "can_set_session_cookies request =
     (let accepted = (case cookies_accepted request of None \<Rightarrow> ''false'' | Some v \<Rightarrow> v)
      in if accepted = ''true'' then Inr True
         else if startswith accepted ''selected:'' then
           (case item (split_on CHR '':'' accepted) 1 of
              Inl e \<Rightarrow> Inl e
            | Inr types \<Rightarrow> Inr (''session'' \<in> set (split_on CHR '','' types)))
         else Inr False)"

text \<open>
  The preference the gate decides on: \<open>request.cookies.get("cookies_accepted", "false")\<close>.
\<close>

definition accepted_text :: "request \<Rightarrow> string" where
  "accepted_text request = (case cookies_accepted request of None \<Rightarrow> ''false'' | Some v \<Rightarrow> v)"

text \<open>
  The specification's wording of the gate: the preference is exactly \<open>"true"\<close>, or it is
  \<open>"selected:"\<close> followed by a comma-separated list of categories, one of which is
  \<open>"session"\<close>. An absent preference counts as \<open>"false"\<close>.
\<close>

definition MayIssueSessionCookie_spec :: "string option \<Rightarrow> bool" where
  "MayIssueSessionCookie_spec pref =
     (let p = (case pref of None \<Rightarrow> ''false'' | Some v \<Rightarrow> v)
      in p = ''true'' \<or>
         (startswith p ''selected:'' \<and> ''session'' \<in> set (split_on CHR '','' (drop 9 p))))"

subsection \<open>Timestamps and their texts\<close>

text \<open>
  A naive Python \<open>datetime\<close> is the count of microseconds since
  \<open>0001-01-01T00:00:00\<close> of the proleptic Gregorian calendar. Adding a
  \<open>timedelta\<close> adds microseconds, and comparing two values compares the counts.
\<close>

type_synonym datetime = int

definition timedelta_days :: "int \<Rightarrow> int" where
  "timedelta_days d = d * 86400 * 1000000"

definition timedelta_minutes :: "int \<Rightarrow> int" where
  "timedelta_minutes m = m * 60 * 1000000"

text \<open>
  The calendar date of a day number (day 1 is 1 January of year 1), as Python's
  \<open>datetime\<close> computes it: cycles of 400, 100, 4 and 1 years, then the month within the
  year. The month read from the two tables is between 1 and 12.
\<close>

definition days_before_month :: "int \<Rightarrow> int" where
  "days_before_month m = [0, 0, 31, 59, 90, 120, 151, 181, 212, 243, 273, 304, 334] ! nat m"

definition days_in_month :: "int \<Rightarrow> int" where
  "days_in_month m = [0, 31, 28, 31, 30, 31, 30, 31, 31, 30, 31, 30, 31] ! nat m"

definition ord2ymd :: "int \<Rightarrow> int \<times> int \<times> int" where
  "ord2ymd ordinal =
     (let n = ordinal - 1;
          n400 = n div 146097; r400 = n mod 146097;
          n100 = r400 div 36524; r100 = r400 mod 36524;
          n4 = r100 div 1461; r4 = r100 mod 1461;
          n1 = r4 div 365; r1 = r4 mod 365;
          year = n400 * 400 + 1 + n100 * 100 + n4 * 4 + n1
      in if n1 = 4 \<or> n100 = 4 then (year - 1, 12, 31)
         else
           let leapyear = (n1 = 3 \<and> (n4 \<noteq> 24 \<or> n100 = 3));
               month = (r1 + 50) div 32;
               preceding = days_before_month month + (if 2 < month \<and> leapyear then 1 else 0)
           in if r1 < preceding
              then (year, month - 1,
                    r1 - (preceding - (days_in_month (month - 1)
                                        + (if month - 1 = 2 \<and> leapyear then 1 else 0))) + 1)
              else (year, month, r1 - preceding + 1))"

definition digit :: "int \<Rightarrow> char" where
  "digit n = ''0123456789'' ! nat (n mod 10)"

definition pad2 :: "int \<Rightarrow> string" where
  "pad2 n = [digit (n div 10), digit n]"

definition pad4 :: "int \<Rightarrow> string" where
  "pad4 n = [digit (n div 1000), digit (n div 100), digit (n div 10), digit n]"

definition pad6 :: "int \<Rightarrow> string" where
  "pad6 n = [digit (n div 100000), digit (n div 10000), digit (n div 1000),
             digit (n div 100), digit (n div 10), digit n]"

definition date_text :: "datetime \<Rightarrow> string" where
  "date_text t =
     (case ord2ymd (t div 86400000000 + 1) of
        (y, m, d) \<Rightarrow> pad4 y @ ''-'' @ pad2 m @ ''-'' @ pad2 d)"

definition time_text :: "datetime \<Rightarrow> string" where
  "time_text t =
     (let r = t mod 86400000000
      in pad2 (r div 3600000000) @ '':'' @ pad2 (r div 60000000 mod 60) @ '':'' @
         pad2 (r div 1000000 mod 60))"

text \<open>
  \<open>datetime.isoformat()\<close>: date and time joined by \<open>T\<close>, the microseconds written
  only when they are not zero.
\<close>

definition isoformat :: "datetime \<Rightarrow> string" where
  "isoformat t =
     date_text t @ ''T'' @ time_text t @
     (if t mod 1000000 = 0 then [] else ''.'' @ pad6 (t mod 1000000))"

text \<open>
  SQLite's \<open>datetime('now')\<close> and \<open>CURRENT_TIMESTAMP\<close>: date and time of the UTC
  clock joined by a space, to the second.
\<close>

definition sqlite_datetime :: "datetime \<Rightarrow> string" where
  "sqlite_datetime t = date_text t @ '' '' @ time_text t"

text \<open>
  SQLite compares two TEXT values byte by byte (collation BINARY); a proper prefix is
  smaller.
\<close>

fun text_lt :: "string \<Rightarrow> string \<Rightarrow> bool" where
  "text_lt [] [] = False"
| "text_lt [] (y # ys) = True"
| "text_lt (x # xs) [] = False"
| "text_lt (x # xs) (y # ys) =
     (if x = y then text_lt xs ys else (of_char x :: nat) < of_char y)"

subsection \<open>The table \<open>user_sessions\<close>\<close>

text \<open>
  One record per row, the rows in insertion order. The columns \<open>created_at\<close> and
  \<open>last_activity\<close> hold the text SQLite writes. The column \<open>expires_at\<close> holds the text
  \<open>isoformat()\<close> of a Python datetime and is read back with \<open>fromisoformat\<close>, which
  inverts \<open>isoformat\<close>: the record keeps the datetime, and the text is written out where
  SQL compares it (\<open>cleanup_expired_sessions\<close>).
\<close>

record session_row =
  session_id :: string
  user_id :: int
  user_login :: string
  email :: string
  access_token :: string
  created_at :: string
  last_activity :: string
  expires_at :: datetime
  ip_address :: string
  user_agent :: string
  remember_me :: bool

type_synonym table = "session_row list"

subsection \<open>What the code draws from outside\<close>

text \<open>
  A statement of a connection may raise; \<open>db_fault\<close> names the statement that does in
  the call at hand. \<open>FailConnect\<close> is \<open>sqlite3.connect\<close> raising inside \<open>get_db\<close>;
  it is a fault of \<open>create_session\<close> only: \<open>validate_session\<close> and
  \<open>cleanup_expired_sessions\<close> are described with their connection open. \<open>token_32\<close> and \<open>token_48\<close> are the values of
  \<open>secrets.token_urlsafe(32)\<close> and \<open>secrets.token_urlsafe(48)\<close>. \<open>now\<close> is the first
  reading of \<open>datetime.now()\<close> in a call (local time) and \<open>now_later\<close> the second one,
  which only \<open>validate_session\<close> takes; \<open>sql_now\<close> is the UTC clock SQLite reads.
\<close>

datatype fault =
  NoFault | FailConnect | FailSelect | FailDelete | FailInsert | FailTouch | FailRenew | FailCommit

record env =
  db_fault :: fault
  token_32 :: string
  token_48 :: string
  now :: datetime
  now_later :: datetime
  sql_now :: datetime

subsection \<open>SQL statements on a connection\<close>

text \<open>
  \<open>get_db\<close> opens a new connection in every call. A connection works on its own copy
  of the table: \<open>commit\<close> makes the copy the table, \<open>rollback\<close> and \<open>close\<close>
  without a commit drop it. A statement returns \<open>None\<close> when it raises.
\<close>

text \<open>\<open>get_db()\<close>, lines 27 to 31: the connection's copy of the table, unless connecting raises.\<close>

definition get_db :: "fault \<Rightarrow> table \<Rightarrow> table option" where
  "get_db f db = (if f = FailConnect then None else Some db)"

text \<open>\<open>DELETE FROM user_sessions WHERE user_id = ?\<close>\<close>

definition delete_user_sessions :: "fault \<Rightarrow> table \<Rightarrow> int \<Rightarrow> table option" where
  "delete_user_sessions f tx uid =
     (if f = FailDelete then None else Some (filter (\<lambda>r. user_id r \<noteq> uid) tx))"

text \<open>
  \<open>INSERT INTO user_sessions\<close>: the primary key \<open>session_id\<close> and the
  \<open>UNIQUE\<close> column \<open>access_token\<close> refuse a value some row already has.
\<close>

definition insert_session :: "fault \<Rightarrow> table \<Rightarrow> session_row \<Rightarrow> table option" where
  "insert_session f tx row =
     (if f = FailInsert \<or> session_id row \<in> session_id ` set tx
         \<or> access_token row \<in> access_token ` set tx
      then None else Some (tx @ [row]))"

text \<open>\<open>SELECT ... WHERE session_id = ? AND access_token = ?\<close> with \<open>fetchone()\<close>\<close>

definition select_session :: "fault \<Rightarrow> table \<Rightarrow> string \<Rightarrow> string \<Rightarrow> session_row option option" where
  "select_session f tx sid tok =
     (if f = FailSelect then None
      else Some (find (\<lambda>r. session_id r = sid \<and> access_token r = tok) tx))"

text \<open>\<open>DELETE FROM user_sessions WHERE session_id = ?\<close>\<close>

definition delete_session :: "fault \<Rightarrow> table \<Rightarrow> string \<Rightarrow> table option" where
  "delete_session f tx sid =
     (if f = FailDelete then None else Some (filter (\<lambda>r. session_id r \<noteq> sid) tx))"

text \<open>\<open>UPDATE user_sessions SET last_activity = datetime('now') WHERE session_id = ?\<close>\<close>

definition touch_session :: "fault \<Rightarrow> table \<Rightarrow> string \<Rightarrow> datetime \<Rightarrow> table option" where
  "touch_session f tx sid utc =
     (if f = FailTouch then None
      else Some (map (\<lambda>r. if session_id r = sid
                            then r\<lparr>last_activity := sqlite_datetime utc\<rparr> else r) tx))"

text \<open>\<open>UPDATE user_sessions SET expires_at = ? WHERE session_id = ?\<close>\<close>

definition renew_session :: "fault \<Rightarrow> table \<Rightarrow> string \<Rightarrow> datetime \<Rightarrow> table option" where
  "renew_session f tx sid new_expires =
     (if f = FailRenew then None
      else Some (map (\<lambda>r. if session_id r = sid
                            then r\<lparr>expires_at := new_expires\<rparr> else r) tx))"

text \<open>\<open>DELETE FROM user_sessions WHERE expires_at < datetime('now')\<close>, a comparison of texts\<close>

definition delete_expired :: "fault \<Rightarrow> table \<Rightarrow> datetime \<Rightarrow> table option" where
  "delete_expired f tx utc =
     (if f = FailDelete then None
      else Some (filter (\<lambda>r. \<not> text_lt (isoformat (expires_at r)) (sqlite_datetime utc)) tx))"

definition commit :: "fault \<Rightarrow> table \<Rightarrow> table option" where
  "commit f tx = (if f = FailCommit then None else Some tx)"

subsection \<open>\<open>create_session\<close>\<close>

text \<open>
  Lines 98 to 154. The result is the tuple the function returns, or the exception that
  leaves it, and the table after the call. The parameter \<open>password\<close> is not read.
  \<open>get_db()\<close> is called at line 126, before the \<open>try\<close> block: when it raises, the
  exception leaves \<open>create_session\<close>. Whatever raises inside the \<open>try\<close> block ends
  in \<open>rollback\<close> and the tuple \<open>(None, None, 0)\<close>.
\<close>

definition new_row :: "env \<Rightarrow> int \<Rightarrow> string \<Rightarrow> string \<Rightarrow> request \<Rightarrow> bool \<Rightarrow> session_row" where
  "new_row e uid login mail request remember =
     \<lparr>session_id = token_32 e,
      user_id = uid,
      user_login = login,
      email = mail,
      access_token = token_48 e,
      created_at = sqlite_datetime (sql_now e),
      last_activity = sqlite_datetime (sql_now e),
      expires_at = now e + (if remember then timedelta_days 7 else timedelta_minutes 60),
      ip_address = (case client_host request of None \<Rightarrow> ''unknown'' | Some h \<Rightarrow> h),
      user_agent = take 500 (case user_agent_header request of None \<Rightarrow> [] | Some u \<Rightarrow> u),
      remember_me = remember\<rparr>"

definition create_session ::
  "env \<Rightarrow> table \<Rightarrow> int \<Rightarrow> string \<Rightarrow> string \<Rightarrow> request \<Rightarrow> bool \<Rightarrow> string option
     \<Rightarrow> (py_error + (string option \<times> string option \<times> int)) \<times> table" where
  "create_session e db uid login mail request remember password =
     (case can_set_session_cookies request of
        Inl err \<Rightarrow> (Inl err, db)
      | Inr allowed \<Rightarrow>
          if \<not> allowed then (Inr (None, None, 0), db)
          else
            let max_age = (if remember then 7 * 24 * 60 * 60 else 30 * 60)
            in (case get_db (db_fault e) db of
                  None \<Rightarrow> (Inl OperationalError, db)
                | Some conn \<Rightarrow>
                    (case Option.bind
                            (Option.bind (delete_user_sessions (db_fault e) conn uid)
                               (\<lambda>tx. insert_session (db_fault e) tx
                                        (new_row e uid login mail request remember)))
                            (commit (db_fault e)) of
                       None \<Rightarrow> (Inr (None, None, 0), db)
                     | Some db' \<Rightarrow>
                         (Inr (Some (token_32 e), Some (token_48 e), max_age), db'))))"

subsection \<open>\<open>cleanup_expired_sessions\<close>\<close>

text \<open>
  Lines 156 to 197. \<open>deleted_count\<close> is 0 until the \<open>DELETE\<close> has run and its
  \<open>rowcount\<close> afterwards; a failing \<open>commit\<close> is rolled back and the count is returned
  all the same. The two counting queries after the commit change nothing, whether they raise
  or not.
\<close>

definition cleanup_expired_sessions :: "env \<Rightarrow> table \<Rightarrow> int \<times> table" where
  "cleanup_expired_sessions e db =
     (case delete_expired (db_fault e) db (sql_now e) of
        None \<Rightarrow> (0, db)
      | Some tx \<Rightarrow>
          let deleted_count = int (length db) - int (length tx)
          in (case commit (db_fault e) tx of
                None \<Rightarrow> (deleted_count, db)
              | Some db' \<Rightarrow> (deleted_count, db')))"

subsection \<open>\<open>validate_session\<close>\<close>

text \<open>
  Lines 238 to 322. The dictionary returned is \<open>Valid\<close> with the user's id, login,
  email, remember flag and the expiry read from the row, or \<open>Invalid\<close> with the reason
  and, for an expired remember-me session, the email and \<open>remember_me = True\<close>. An absent
  cookie (\<open>None\<close>) is falsy like the empty text. An exception inside the \<open>try\<close>
  block gives the reason \<open>error\<close>, and the connection is closed without a commit.
\<close>

datatype session_status =
  is_Valid: Valid int string string bool datetime
| Invalid string "(string \<times> bool) option"

definition validate_session ::
  "env \<Rightarrow> table \<Rightarrow> string \<Rightarrow> string \<Rightarrow> bool \<Rightarrow> session_status \<times> table" where
  "validate_session e db sid tok prolong =
     (if sid = [] \<or> tok = [] then (Invalid ''no_session'' None, db)
      else
        case select_session (db_fault e) db sid tok of
          None \<Rightarrow> (Invalid ''error'' None, db)
        | Some None \<Rightarrow> (Invalid ''session_not_found'' None, db)
        | Some (Some result) \<Rightarrow>
            if now e > expires_at result then
              (case Option.bind (delete_session (db_fault e) db sid) (commit (db_fault e)) of
                 None \<Rightarrow> (Invalid ''error'' None, db)
               | Some db' \<Rightarrow>
                   (if remember_me result
                    then Invalid ''session_expired'' (Some (email result, True))
                    else Invalid ''session_expired'' None, db'))
            else
              (case Option.bind
                      (Option.bind (touch_session (db_fault e) db sid (sql_now e))
                         (\<lambda>tx. if prolong \<and> \<not> remember_me result
                                then renew_session (db_fault e) tx sid
                                       (now_later e + timedelta_minutes 30)
                                else Some tx))
                      (commit (db_fault e)) of
                 None \<Rightarrow> (Invalid ''error'' None, db)
               | Some db' \<Rightarrow>
                   (Valid (user_id result) (user_login result) (email result)
                      (remember_me result) (expires_at result), db')))"

text \<open>
  Calls of \<open>validate_session\<close> with \<open>prolong=True\<close> for one pair of secrets, one after
  the other, each in its own environment (its clock readings and its fault); the result is
  the table after the last call.
\<close>

fun validate_repeatedly :: "env list \<Rightarrow> table \<Rightarrow> string \<Rightarrow> string \<Rightarrow> table" where
  "validate_repeatedly [] db sid tok = db"
| "validate_repeatedly (e # es) db sid tok =
     validate_repeatedly es (snd (validate_session e db sid tok True)) sid tok"


subsection \<open>Sample values\<close>

text \<open>
  A request with a given consent cookie; an environment without faults whose clocks all
  read the same time (the host runs on UTC); the time \<open>t0\<close>, 2026-11-03 15:00:00; and a
  row with given secrets, user, expiry and remember flag.
\<close>

definition request_with :: "string option \<Rightarrow> request" where
  "request_with c =
     \<lparr>cookies_accepted = c, client_host = Some ''10.0.0.1'', user_agent_header = Some ''curl''\<rparr>"

definition env_at :: "datetime \<Rightarrow> env" where
  "env_at t =
     \<lparr>db_fault = NoFault, token_32 = ''sid-new'', token_48 = ''tok-new'',
      now = t, now_later = t, sql_now = t\<rparr>"

definition t0 :: datetime where
  "t0 = 63929314800000000"

definition sample_row :: "string \<Rightarrow> string \<Rightarrow> int \<Rightarrow> datetime \<Rightarrow> bool \<Rightarrow> session_row" where
  "sample_row sid tok uid expires remember =
     \<lparr>session_id = sid, user_id = uid, user_login = ''ann'', email = ''a@b.com'',
      access_token = tok, created_at = ''2026-11-01 08:00:00'',
      last_activity = ''2026-11-01 08:00:00'', expires_at = expires,
      ip_address = ''10.0.0.1'', user_agent = ''curl'', remember_me = remember\<rparr>"

section \<open>Properties\<close>

subsection \<open>Splitting texts\<close>

lemma split_acc_head:
  "split_acc c acc s =
     (rev acc @ takeWhile (\<lambda>x. x \<noteq> c) s) #
     (case dropWhile (\<lambda>x. x \<noteq> c) s of [] \<Rightarrow> [] | _ # rest \<Rightarrow> split_acc c [] rest)"
  by (induction s arbitrary: acc) simp_all

lemma split_on_first:
  "\<exists>ws. split_on c s = takeWhile (\<lambda>x. x \<noteq> c) s # ws"
  unfolding split_on_def by (subst split_acc_head) simp

lemma split_on_selected:
  "split_on CHR '':'' (''selected:'' @ rest) = ''selected'' # split_on CHR '':'' rest"
  by (simp add: split_on_def)

text \<open>Element 1 exists whenever the text starts with \<open>selected:\<close>, so the read never raises.\<close>

lemma item_selected:
  "item (split_on CHR '':'' (''selected:'' @ rest)) 1 =
     Inr (takeWhile (\<lambda>x. x \<noteq> CHR '':'') rest)"
proof -
  obtain ws where "split_on CHR '':'' rest = takeWhile (\<lambda>x. x \<noteq> CHR '':'') rest # ws"
    using split_on_first by blast
  then show ?thesis using split_on_selected [of rest] by (simp add: item_def)
qed

subsection \<open>The consent gate\<close>

lemma gate_value:
  "can_set_session_cookies request =
     Inr (accepted_text request = ''true'' \<or>
          (startswith (accepted_text request) ''selected:'' \<and>
           ''session'' \<in> set (split_on CHR '',''
              (takeWhile (\<lambda>x. x \<noteq> CHR '':'') (drop 9 (accepted_text request))))))"
proof -
  define p where "p = accepted_text request"
  have p: "(case cookies_accepted request of None \<Rightarrow> ''false'' | Some v \<Rightarrow> v) = p"
    by (simp add: p_def accepted_text_def)
  show ?thesis
  proof (cases "startswith p ''selected:''")
    case True
    have len: "length ''selected:'' = (9::nat)" by simp
    from True have "take (length ''selected:'') p = ''selected:''"
      unfolding startswith_def .
    then have "p = ''selected:'' @ drop (length ''selected:'') p"
      by (metis append_take_drop_id)
    then have eq: "p = ''selected:'' @ drop 9 p" unfolding len .
    have nt: "p \<noteq> ''true''" using True by (auto simp: startswith_def)
    have "item (split_on CHR '':'' p) 1 = Inr (takeWhile (\<lambda>x. x \<noteq> CHR '':'') (drop 9 p))"
      by (subst eq) (rule item_selected)
    with True nt show ?thesis
      unfolding can_set_session_cookies_def p p_def [symmetric] Let_def by simp
  next
    case False
    then show ?thesis
      unfolding can_set_session_cookies_def p p_def [symmetric] Let_def by simp
  qed
qed

lemma gate_total: "\<exists>b. can_set_session_cookies request = Inr b"
  using gate_value by blast

subsection \<open>\<open>create_session\<close> by cases\<close>

lemma new_row_simps:
  "session_id (new_row e uid login mail request remember) = token_32 e"
  "access_token (new_row e uid login mail request remember) = token_48 e"
  "user_id (new_row e uid login mail request remember) = uid"
  "remember_me (new_row e uid login mail request remember) = remember"
  "expires_at (new_row e uid login mail request remember) =
     now e + (if remember then timedelta_days 7 else timedelta_minutes 60)"
  by (simp_all add: new_row_def)

lemma create_session_cases:
  "create_session e db uid login mail request remember pw =
     (if can_set_session_cookies request \<noteq> Inr True then (Inr (None, None, 0), db)
      else if db_fault e = FailConnect then (Inl OperationalError, db)
      else if db_fault e \<noteq> FailDelete \<and> db_fault e \<noteq> FailInsert \<and>
              db_fault e \<noteq> FailCommit \<and>
              token_32 e \<notin> session_id ` set (filter (\<lambda>r. user_id r \<noteq> uid) db) \<and>
              token_48 e \<notin> access_token ` set (filter (\<lambda>r. user_id r \<noteq> uid) db)
      then (Inr (Some (token_32 e), Some (token_48 e),
                 if remember then 7 * 24 * 60 * 60 else 30 * 60),
            filter (\<lambda>r. user_id r \<noteq> uid) db @ [new_row e uid login mail request remember])
      else (Inr (None, None, 0), db))"
proof -
  obtain b where b: "can_set_session_cookies request = Inr b"
    using gate_total by blast
  show ?thesis
    unfolding create_session_def get_db_def delete_user_sessions_def insert_session_def
      commit_def Let_def b
    by (simp add: new_row_simps)
qed

subsection \<open>Claims about the consent gate\<close>

text \<open>
  C5, as the specification words it: the gate is true exactly when the preference is
  \<open>"true"\<close> or is \<open>"selected:"\<close> followed by a comma-separated list that contains
  \<open>"session"\<close>. This fails: the code cuts the preference at colons first and reads the
  piece after the first colon only, so for \<open>"selected:session:x"\<close>, whose list after
  \<open>"selected:"\<close> has the single category \<open>"session:x"\<close>, the gate is true.
\<close>

theorem can_set_session_cookies_spec_counterexample:
  "can_set_session_cookies (request_with (Some ''selected:session:x'')) = Inr True \<and>
   MayIssueSessionCookie_spec (Some ''selected:session:x'') = False"
  by (simp add: can_set_session_cookies_def MayIssueSessionCookie_spec_def startswith_def
      split_on_def item_def request_with_def)

text \<open>
  C5, amended: the gate never raises and is a function of the preference alone (absent
  counts as \<open>"false"\<close>); it is true exactly when the preference is \<open>"true"\<close>, or starts
  with \<open>"selected:"\<close> and the text between that prefix and the next colon (or the end),
  cut at commas, contains \<open>"session"\<close>.
\<close>

theorem can_set_session_cookies_iff:
  "can_set_session_cookies request =
     Inr (accepted_text request = ''true'' \<or>
          (startswith (accepted_text request) ''selected:'' \<and>
           ''session'' \<in> set (split_on CHR '',''
              (takeWhile (\<lambda>x. x \<noteq> CHR '':'') (drop 9 (accepted_text request))))))"
  by (rule gate_value)

theorem can_set_session_cookies_iff_witness:
  "can_set_session_cookies (request_with (Some ''selected:functional,session'')) = Inr True \<and>
   can_set_session_cookies (request_with (Some ''selected:functional'')) = Inr False \<and>
   can_set_session_cookies (request_with (Some ''true'')) = Inr True \<and>
   can_set_session_cookies (request_with None) = Inr False"
  using can_set_session_cookies_iff [of "request_with (Some ''selected:functional,session'')"]
    can_set_session_cookies_iff [of "request_with (Some ''selected:functional'')"]
    can_set_session_cookies_iff [of "request_with (Some ''true'')"]
    can_set_session_cookies_iff [of "request_with None"]
  by (simp add: accepted_text_def startswith_def split_on_def request_with_def)

text \<open>
  C6 says that without consent \<open>create_session\<close> signals the failure
  \<open>consent_required\<close> to its caller. The code has no such signal: what it returns
  without consent is \<open>(None, None, 0)\<close>, the very value it returns with consent when the
  \<open>commit\<close> raises, so the caller cannot tell the two failures apart.
\<close>

theorem create_session_consent_signal_counterexample:
  "can_set_session_cookies (request_with (Some ''selected:functional'')) = Inr False \<and>
   can_set_session_cookies (request_with (Some ''true'')) = Inr True \<and>
   fst (create_session (env_at t0) [] 7 ''ann'' ''a@b.com''
          (request_with (Some ''selected:functional'')) False None) = Inr (None, None, 0) \<and>
   fst (create_session ((env_at t0)\<lparr>db_fault := FailCommit\<rparr>) [] 7 ''ann'' ''a@b.com''
          (request_with (Some ''true'')) False None) = Inr (None, None, 0)"
  by (simp add: create_session_cases can_set_session_cookies_def startswith_def split_on_def
      item_def request_with_def env_at_def)

text \<open>
  C6, amended: when the gate is false, \<open>create_session\<close> runs no statement and opens no
  connection (the result is the same in every environment, also one whose connection or
  statements would raise), the table is the one before the call, no tokens are returned,
  and the value returned is the failure value \<open>(None, None, 0)\<close>, which is also what any
  call returns whose \<open>DELETE\<close>, \<open>INSERT\<close> or \<open>commit\<close> raises with consent given.
\<close>

theorem create_session_without_consent:
  assumes "can_set_session_cookies request = Inr False"
  shows "create_session e db uid login mail request remember pw = (Inr (None, None, 0), db) \<and>
         (\<forall>e' request'.
            can_set_session_cookies request' = Inr True \<and>
            (db_fault e' = FailDelete \<or> db_fault e' = FailInsert \<or> db_fault e' = FailCommit)
            \<longrightarrow>
            create_session e' db uid login mail request' remember pw =
              create_session e db uid login mail request remember pw)"
  using assms by (auto simp: create_session_cases)

theorem create_session_without_consent_witness:
  "can_set_session_cookies (request_with (Some ''selected:functional'')) = Inr False \<and>
   create_session ((env_at t0)\<lparr>db_fault := FailConnect\<rparr>)
     [sample_row ''s1'' ''k1'' 7 t0 False] 7 ''ann'' ''a@b.com''
     (request_with (Some ''selected:functional'')) False None =
     (Inr (None, None, 0), [sample_row ''s1'' ''k1'' 7 t0 False])"
proof -
  have h: "can_set_session_cookies (request_with (Some ''selected:functional'')) = Inr False"
    by (simp add: can_set_session_cookies_def startswith_def split_on_def item_def
        request_with_def)
  from create_session_without_consent [OF h, of "(env_at t0)\<lparr>db_fault := FailConnect\<rparr>"
        "[sample_row ''s1'' ''k1'' 7 t0 False]" 7 "''ann''" "''a@b.com''" False None]
  have "create_session ((env_at t0)\<lparr>db_fault := FailConnect\<rparr>)
     [sample_row ''s1'' ''k1'' 7 t0 False] 7 ''ann'' ''a@b.com''
     (request_with (Some ''selected:functional'')) False None =
     (Inr (None, None, 0), [sample_row ''s1'' ''k1'' 7 t0 False])"
    by (rule conjunct1)
  with h show ?thesis by (rule conjI)
qed

subsection \<open>Claims about \<open>create_session\<close>\<close>

lemma gate_true: "can_set_session_cookies (request_with (Some ''true'')) = Inr True"
  by (simp add: can_set_session_cookies_def request_with_def)

lemma create_session_success:
  assumes "create_session e db uid login mail request remember pw =
             (Inr (Some sid, tok, max_age), db')"
  shows "db' = filter (\<lambda>r. user_id r \<noteq> uid) db @ [new_row e uid login mail request remember]"
    and "sid = token_32 e" and "tok = Some (token_48 e)"
    and "max_age = (if remember then 7 * 24 * 60 * 60 else 30 * 60)"
    and "token_32 e \<notin> session_id ` set (filter (\<lambda>r. user_id r \<noteq> uid) db)"
    and "token_48 e \<notin> access_token ` set (filter (\<lambda>r. user_id r \<noteq> uid) db)"
  using assms unfolding create_session_cases
  by (simp_all split: if_splits)

text \<open>
  C1: from any table, a call of \<open>create_session\<close> that succeeds (it returns a session
  id) leaves the rows of the other users as they were, followed by the one new row; the
  rows of \<open>user_id\<close> in the new table are that single row. As the table before the call
  is arbitrary, this holds after each call of any sequence of calls.
\<close>

theorem create_session_one_row_per_user:
  assumes "create_session e db uid login mail request remember pw =
             (Inr (Some sid, tok, max_age), db')"
  shows "db' = filter (\<lambda>r. user_id r \<noteq> uid) db @ [new_row e uid login mail request remember] \<and>
         filter (\<lambda>r. user_id r = uid) db' = [new_row e uid login mail request remember] \<and>
         length (filter (\<lambda>r. user_id r = uid) db') = 1 \<and>
         session_id (new_row e uid login mail request remember) = sid \<and>
         user_id (new_row e uid login mail request remember) = uid"
  using assms unfolding create_session_cases
  by (auto simp: new_row_simps split: if_splits)

theorem create_session_one_row_per_user_witness:
  "create_session (env_at t0)
     [sample_row ''s1'' ''k1'' 7 t0 False, sample_row ''s2'' ''k2'' 8 t0 True,
      sample_row ''s3'' ''k3'' 7 t0 True]
     7 ''ann'' ''a@b.com'' (request_with (Some ''true'')) False None =
     (Inr (Some ''sid-new'', Some ''tok-new'', 1800),
      [sample_row ''s2'' ''k2'' 8 t0 True,
       new_row (env_at t0) 7 ''ann'' ''a@b.com'' (request_with (Some ''true'')) False]) \<and>
   length (filter (\<lambda>r. user_id r = 7)
      [sample_row ''s2'' ''k2'' 8 t0 True,
       new_row (env_at t0) 7 ''ann'' ''a@b.com'' (request_with (Some ''true'')) False]) = 1"
proof -
  have c: "create_session (env_at t0)
     [sample_row ''s1'' ''k1'' 7 t0 False, sample_row ''s2'' ''k2'' 8 t0 True,
      sample_row ''s3'' ''k3'' 7 t0 True]
     7 ''ann'' ''a@b.com'' (request_with (Some ''true'')) False None =
     (Inr (Some ''sid-new'', Some ''tok-new'', 1800),
      [sample_row ''s2'' ''k2'' 8 t0 True,
       new_row (env_at t0) 7 ''ann'' ''a@b.com'' (request_with (Some ''true'')) False])"
    by (simp add: create_session_cases gate_true env_at_def sample_row_def)
  from create_session_one_row_per_user [OF c]
  have "length (filter (\<lambda>r. user_id r = 7)
      [sample_row ''s2'' ''k2'' 8 t0 True,
       new_row (env_at t0) 7 ''ann'' ''a@b.com'' (request_with (Some ''true'')) False]) = 1"
    by blast
  with c show ?thesis by (rule conjI)
qed

text \<open>
  C7: after a call that succeeds, the row of the returned session id exists and expires
  at \<open>now\<close> plus 7 days when \<open>remember_me\<close> is set and at \<open>now\<close> plus 60 minutes when
  it is not (in microseconds); the returned \<open>max_age\<close> is \<open>7 * 24 * 3600\<close> seconds in
  the first case and \<open>30 * 60 = 1800\<close> seconds in the second.
\<close>

theorem create_session_durations:
  assumes "create_session e db uid login mail request remember pw =
             (Inr (Some sid, tok, max_age), db')"
  shows "(\<exists>r \<in> set db'. session_id r = sid) \<and>
         (\<forall>r \<in> set db'. session_id r = sid \<longrightarrow>
            remember_me r = remember \<and>
            expires_at r =
              now e + (if remember then 7 * 24 * 3600 * 1000000 else 60 * 60 * 1000000)) \<and>
         max_age = (if remember then 7 * 24 * 3600 else 30 * 60)"
proof -
  let ?new = "new_row e uid login mail request remember"
  note s = create_session_success [OF assms]
  have ex: "\<exists>r \<in> set db'. session_id r = sid"
    using s(1,2) by (simp add: new_row_simps)
  have all: "remember_me r = remember \<and> expires_at r =
      now e + (if remember then 7 * 24 * 3600 * 1000000 else 60 * 60 * 1000000)"
    if "r \<in> set db'" "session_id r = sid" for r
  proof -
    have "r \<notin> set (filter (\<lambda>r. user_id r \<noteq> uid) db)"
      using s(5) that(2) s(2) by (metis image_eqI)
    then have "r = ?new" using that(1) s(1) by auto
    then show ?thesis
      by (simp add: new_row_simps timedelta_days_def timedelta_minutes_def)
  qed
  have "max_age = (if remember then 7 * 24 * 3600 else 30 * 60)"
    using s(4) by simp
  with ex all show ?thesis by blast
qed

theorem create_session_durations_witness:
  "create_session (env_at t0) [] 7 ''ann'' ''a@b.com'' (request_with (Some ''true'')) True None =
     (Inr (Some ''sid-new'', Some ''tok-new'', 604800),
      [new_row (env_at t0) 7 ''ann'' ''a@b.com'' (request_with (Some ''true'')) True]) \<and>
   expires_at (new_row (env_at t0) 7 ''ann'' ''a@b.com'' (request_with (Some ''true'')) True)
     = t0 + 604800000000"
proof -
  let ?new = "new_row (env_at t0) 7 ''ann'' ''a@b.com'' (request_with (Some ''true'')) True"
  have c: "create_session (env_at t0) [] 7 ''ann'' ''a@b.com'' (request_with (Some ''true'')) True None =
     (Inr (Some ''sid-new'', Some ''tok-new'', 604800), [?new])"
    by (simp add: create_session_cases gate_true env_at_def)
  have sid: "session_id ?new = ''sid-new''" by (simp add: new_row_simps env_at_def)
  from create_session_durations [OF c]
  have "\<forall>r \<in> set [?new]. session_id r = ''sid-new'' \<longrightarrow>
          remember_me r = True \<and>
          expires_at r = now (env_at t0) +
            (if True then 7 * 24 * 3600 * 1000000 else 60 * 60 * 1000000)"
    by blast
  then have "expires_at ?new = now (env_at t0) +
            (if True then 7 * 24 * 3600 * 1000000 else 60 * 60 * 1000000)"
    using sid by simp
  then have "expires_at ?new = t0 + 604800000000" by (simp add: env_at_def)
  with c show ?thesis by (rule conjI)
qed

text \<open>
  C9 says that on every persistence failure the caller receives the failure value. When
  the database cannot be opened this fails: \<open>get_db()\<close> is called before the \<open>try\<close>
  block, so the exception leaves \<open>create_session\<close> and no tuple is returned.
\<close>

theorem create_session_connect_failure_counterexample:
  "can_set_session_cookies (request_with (Some ''true'')) = Inr True \<and>
   create_session ((env_at t0)\<lparr>db_fault := FailConnect\<rparr>)
     [sample_row ''s1'' ''k1'' 7 t0 False] 7 ''ann'' ''a@b.com''
     (request_with (Some ''true'')) False None =
     (Inl OperationalError, [sample_row ''s1'' ''k1'' 7 t0 False])"
  by (simp add: create_session_cases can_set_session_cookies_def request_with_def env_at_def)

text \<open>
  C9, amended: with consent given, when a statement of the transaction raises (the
  \<open>DELETE\<close>, the \<open>INSERT\<close>, also by a session id or an access token that a remaining
  row already has, or the \<open>commit\<close>), \<open>create_session\<close> returns \<open>(None, None, 0)\<close>
  and the table is the one before the call: the deletion of the user's old rows is undone
  too. When opening the connection raises, the exception leaves \<open>create_session\<close>; the
  table is the one before the call and no tokens are returned. In every call, a result
  other than a tuple with tokens leaves the table as it was.
\<close>

theorem create_session_rolls_back:
  assumes "can_set_session_cookies request = Inr True"
  shows "(db_fault e \<noteq> FailConnect \<and>
          (db_fault e = FailDelete \<or> db_fault e = FailInsert \<or> db_fault e = FailCommit \<or>
           token_32 e \<in> session_id ` set (filter (\<lambda>r. user_id r \<noteq> uid) db) \<or>
           token_48 e \<in> access_token ` set (filter (\<lambda>r. user_id r \<noteq> uid) db)) \<longrightarrow>
            create_session e db uid login mail request remember pw =
              (Inr (None, None, 0), db)) \<and>
         (db_fault e = FailConnect \<longrightarrow>
            create_session e db uid login mail request remember pw =
              (Inl OperationalError, db)) \<and>
         (fst (create_session e db uid login mail request remember pw) \<noteq>
            Inr (Some (token_32 e), Some (token_48 e),
                 if remember then 7 * 24 * 60 * 60 else 30 * 60) \<longrightarrow>
            snd (create_session e db uid login mail request remember pw) = db)"
  using assms unfolding create_session_cases by auto

theorem create_session_rolls_back_witness:
  "create_session ((env_at t0)\<lparr>db_fault := FailCommit\<rparr>)
     [sample_row ''s1'' ''k1'' 7 t0 False, sample_row ''s2'' ''k2'' 8 t0 True]
     7 ''ann'' ''a@b.com'' (request_with (Some ''true'')) False None =
     (Inr (None, None, 0),
      [sample_row ''s1'' ''k1'' 7 t0 False, sample_row ''s2'' ''k2'' 8 t0 True]) \<and>
   create_session ((env_at t0)\<lparr>token_48 := ''k2''\<rparr>)
     [sample_row ''s1'' ''k1'' 7 t0 False, sample_row ''s2'' ''k2'' 8 t0 True]
     7 ''ann'' ''a@b.com'' (request_with (Some ''true'')) False None =
     (Inr (None, None, 0),
      [sample_row ''s1'' ''k1'' 7 t0 False, sample_row ''s2'' ''k2'' 8 t0 True])"
proof -
  let ?db = "[sample_row ''s1'' ''k1'' 7 t0 False, sample_row ''s2'' ''k2'' 8 t0 True]"
  have f: "db_fault ((env_at t0)\<lparr>db_fault := FailCommit\<rparr>) \<noteq> FailConnect \<and>
           db_fault ((env_at t0)\<lparr>db_fault := FailCommit\<rparr>) = FailCommit"
    by simp
  have k: "db_fault ((env_at t0)\<lparr>token_48 := ''k2''\<rparr>) \<noteq> FailConnect \<and>
           token_48 ((env_at t0)\<lparr>token_48 := ''k2''\<rparr>)
             \<in> access_token ` set (filter (\<lambda>r. user_id r \<noteq> 7) ?db)"
    by (simp add: sample_row_def env_at_def)
  from create_session_rolls_back [OF gate_true, of "(env_at t0)\<lparr>db_fault := FailCommit\<rparr>"
        7 ?db "''ann''" "''a@b.com''" False None] f
  have 1: "create_session ((env_at t0)\<lparr>db_fault := FailCommit\<rparr>) ?db
     7 ''ann'' ''a@b.com'' (request_with (Some ''true'')) False None = (Inr (None, None, 0), ?db)"
    by blast
  from create_session_rolls_back [OF gate_true, of "(env_at t0)\<lparr>token_48 := ''k2''\<rparr>"
        7 ?db "''ann''" "''a@b.com''" False None] k
  have 2: "create_session ((env_at t0)\<lparr>token_48 := ''k2''\<rparr>) ?db
     7 ''ann'' ''a@b.com'' (request_with (Some ''true'')) False None = (Inr (None, None, 0), ?db)"
    by blast
  from 1 2 show ?thesis by (rule conjI)
qed

subsection \<open>\<open>validate_session\<close> by cases\<close>

lemma validate_session_cases:
  "validate_session e db sid tok prolong =
     (if sid = [] \<or> tok = [] then (Invalid ''no_session'' None, db)
      else if db_fault e = FailSelect then (Invalid ''error'' None, db)
      else case find (\<lambda>r. session_id r = sid \<and> access_token r = tok) db of
        None \<Rightarrow> (Invalid ''session_not_found'' None, db)
      | Some result \<Rightarrow>
          if now e > expires_at result then
            (if db_fault e = FailDelete \<or> db_fault e = FailCommit
             then (Invalid ''error'' None, db)
             else (Invalid ''session_expired''
                     (if remember_me result then Some (email result, True) else None),
                   filter (\<lambda>r. session_id r \<noteq> sid) db))
          else
            (if db_fault e = FailTouch \<or> db_fault e = FailCommit \<or>
                (prolong \<and> \<not> remember_me result \<and> db_fault e = FailRenew)
             then (Invalid ''error'' None, db)
             else (Valid (user_id result) (user_login result) (email result)
                     (remember_me result) (expires_at result),
                   map (\<lambda>r. if session_id r = sid
                             then r\<lparr>last_activity := sqlite_datetime (sql_now e),
                                    expires_at := (if prolong \<and> \<not> remember_me result
                                                   then now_later e + timedelta_minutes 30
                                                   else expires_at r)\<rparr>
                             else r) db)))"
  unfolding validate_session_def select_session_def delete_session_def touch_session_def
    renew_session_def commit_def
  by (auto split: option.splits intro!: map_cong)


lemma find_none_iff:
  "find P xs = None \<longleftrightarrow> (\<forall>x \<in> set xs. \<not> P x)"
  by (induction xs) auto


subsection \<open>Claims about \<open>validate_session\<close>\<close>






lemma validate_session_valid:
  assumes "validate_session e db sid tok prolong = (Valid u l m rm ex, db')"
  shows "\<exists>r. find (\<lambda>x. session_id x = sid \<and> access_token x = tok) db = Some r \<and>
             remember_me r = rm \<and> expires_at r = ex \<and> \<not> now e > ex"
    and "db' = map (\<lambda>r. if session_id r = sid
                          then r\<lparr>last_activity := sqlite_datetime (sql_now e),
                                 expires_at := (if prolong \<and> \<not> rm
                                                then now_later e + timedelta_minutes 30
                                                else expires_at r)\<rparr>
                          else r) db"
  using assms unfolding validate_session_cases
  by (auto split: if_splits option.splits)

text \<open>
  C10: when \<open>validate_session\<close> returns \<open>Valid\<close>, the new table is the old one with,
  in the rows of that session id, \<open>last_activity\<close> set to SQLite's clock and, only for
  \<open>prolong\<close> with the remember flag unset, \<open>expires_at\<close> set; the nine other columns
  are the same in every row, a row of another session id is the same row, and without
  \<open>prolong\<close> (or with the remember flag set) the column \<open>expires_at\<close> is the same in
  every row.
\<close>

theorem validate_session_frame:
  assumes "validate_session e db sid tok prolong = (Valid u l m rm ex, db')"
  shows "db' = map (\<lambda>r. if session_id r = sid
                          then r\<lparr>last_activity := sqlite_datetime (sql_now e),
                                 expires_at := (if prolong \<and> \<not> rm
                                                then now_later e + 30 * 60 * 1000000
                                                else expires_at r)\<rparr>
                          else r) db \<and>
         map session_id db' = map session_id db \<and>
         map user_id db' = map user_id db \<and>
         map user_login db' = map user_login db \<and>
         map email db' = map email db \<and>
         map access_token db' = map access_token db \<and>
         map created_at db' = map created_at db \<and>
         map ip_address db' = map ip_address db \<and>
         map user_agent db' = map user_agent db \<and>
         map remember_me db' = map remember_me db \<and>
         length db' = length db \<and>
         (\<forall>i < length db. session_id (db ! i) \<noteq> sid \<longrightarrow> db' ! i = db ! i) \<and>
         (\<forall>i < length db. session_id (db ! i) = sid \<longrightarrow>
            last_activity (db' ! i) = sqlite_datetime (sql_now e)) \<and>
         (\<not> prolong \<or> rm \<longrightarrow> map expires_at db' = map expires_at db)"
proof -
  note eq = validate_session_valid(2) [OF assms]
  have 1: "db' = map (\<lambda>r. if session_id r = sid
                          then r\<lparr>last_activity := sqlite_datetime (sql_now e),
                                 expires_at := (if prolong \<and> \<not> rm
                                                then now_later e + 30 * 60 * 1000000
                                                else expires_at r)\<rparr>
                          else r) db"
    using eq by (simp add: timedelta_minutes_def)
  have 2: "map session_id db' = map session_id db" "map user_id db' = map user_id db"
    "map user_login db' = map user_login db" "map email db' = map email db"
    "map access_token db' = map access_token db" "map created_at db' = map created_at db"
    "map ip_address db' = map ip_address db" "map user_agent db' = map user_agent db"
    "map remember_me db' = map remember_me db"
    unfolding eq by (simp_all add: comp_def if_distrib cong: if_cong)
  have 3: "length db' = length db" unfolding eq by simp
  have 4: "\<forall>i < length db. session_id (db ! i) \<noteq> sid \<longrightarrow> db' ! i = db ! i"
    unfolding eq by simp
  have 5: "\<forall>i < length db. session_id (db ! i) = sid \<longrightarrow>
            last_activity (db' ! i) = sqlite_datetime (sql_now e)"
    unfolding eq by simp
  have 6: "\<not> prolong \<or> rm \<longrightarrow> map expires_at db' = map expires_at db"
    unfolding eq by (auto simp: comp_def if_distrib cong: if_cong)
  from 1 2 3 4 5 6 show ?thesis by blast
qed

theorem validate_session_frame_witness:
  "validate_session (env_at t0)
     [sample_row ''s1'' ''k1'' 7 (t0 + 5) False, sample_row ''s2'' ''k2'' 8 t0 False]
     ''s1'' ''k1'' False =
     (Valid 7 ''ann'' ''a@b.com'' False (t0 + 5),
      [(sample_row ''s1'' ''k1'' 7 (t0 + 5) False)\<lparr>last_activity := sqlite_datetime t0\<rparr>,
       sample_row ''s2'' ''k2'' 8 t0 False]) \<and>
   map expires_at
      [(sample_row ''s1'' ''k1'' 7 (t0 + 5) False)\<lparr>last_activity := sqlite_datetime t0\<rparr>,
       sample_row ''s2'' ''k2'' 8 t0 False] =
   map expires_at
     [sample_row ''s1'' ''k1'' 7 (t0 + 5) False, sample_row ''s2'' ''k2'' 8 t0 False]"
proof -
  let ?db = "[sample_row ''s1'' ''k1'' 7 (t0 + 5) False, sample_row ''s2'' ''k2'' 8 t0 False]"
  let ?db' = "[(sample_row ''s1'' ''k1'' 7 (t0 + 5) False)\<lparr>last_activity := sqlite_datetime t0\<rparr>,
       sample_row ''s2'' ''k2'' 8 t0 False]"
  have c: "validate_session (env_at t0) ?db ''s1'' ''k1'' False =
     (Valid 7 ''ann'' ''a@b.com'' False (t0 + 5), ?db')"
    by (simp add: validate_session_cases env_at_def sample_row_def)
  from validate_session_frame [OF c]
  have "map expires_at ?db' = map expires_at ?db" by blast
  with c show ?thesis by (rule conjI)
qed

subsection \<open>Repeated validation of a remember-me session\<close>

lemma find_cong_key:
  assumes "\<And>x. P (f x) = P x"
  shows "find P (map f xs) = map_option f (find P xs)"
  using assms by (induction xs) auto

lemma validate_repeatedly_absent:
  assumes "\<forall>x \<in> set db. session_id x \<noteq> sid"
  shows "validate_repeatedly es db sid tok = db"
proof (induction es)
  case Nil
  show ?case by simp
next
  case (Cons e es)
  have "find (\<lambda>x. session_id x = sid \<and> access_token x = tok) db = None"
    using assms by (simp add: find_none_iff)
  then have "snd (validate_session e db sid tok True) = db"
    by (simp add: validate_session_cases)
  with Cons show ?case by simp
qed

lemma validate_repeatedly_remember:
  assumes "find (\<lambda>x. session_id x = sid \<and> access_token x = tok) db = Some r"
    and "remember_me r"
  shows "map (\<lambda>x. (session_id x, expires_at x)) (validate_repeatedly es db sid tok) =
           map (\<lambda>x. (session_id x, expires_at x)) db \<or>
         map (\<lambda>x. (session_id x, expires_at x)) (validate_repeatedly es db sid tok) =
           map (\<lambda>x. (session_id x, expires_at x)) (filter (\<lambda>x. session_id x \<noteq> sid) db)"
  using assms
proof (induction es arbitrary: db r)
  case Nil
  show ?case by simp
next
  case (Cons e es)
  let ?P = "\<lambda>x. session_id x = sid \<and> access_token x = tok"
  let ?k = "\<lambda>x. (session_id x, expires_at x)"
  let ?touch = "\<lambda>x. if session_id x = sid
                     then x\<lparr>last_activity := sqlite_datetime (sql_now e)\<rparr> else x"
  let ?db1 = "snd (validate_session e db sid tok True)"
  have step: "?db1 = db \<or> ?db1 = filter (\<lambda>x. session_id x \<noteq> sid) db \<or> ?db1 = map ?touch db"
    using Cons.prems by (simp add: validate_session_cases cong: if_cong)
  then consider (same) "?db1 = db" | (gone) "?db1 = filter (\<lambda>x. session_id x \<noteq> sid) db"
    | (touched) "?db1 = map ?touch db" by blast
  then show ?case
  proof cases
    case same
    with Cons.IH [OF Cons.prems] show ?thesis by simp
  next
    case gone
    have "validate_repeatedly es ?db1 sid tok = ?db1"
      by (rule validate_repeatedly_absent) (simp add: gone)
    with gone show ?thesis by simp
  next
    case touched
    have f: "find ?P ?db1 = Some (?touch r)"
      unfolding touched using Cons.prems(1) by (subst find_cong_key) auto
    have rm: "remember_me (?touch r)" using Cons.prems(2) by simp
    have k: "map ?k ?db1 = map ?k db"
      unfolding touched by (simp add: comp_def if_distrib cong: if_cong)
    have fk: "map ?k (filter (\<lambda>x. session_id x \<noteq> sid) ?db1) =
              map ?k (filter (\<lambda>x. session_id x \<noteq> sid) db)"
      unfolding touched by (induction db) auto
    from Cons.IH [OF f rm] k fk show ?thesis by simp
  qed
qed

lemma same_keys_member:
  assumes "map f ys = map f xs" and "r \<in> set xs"
  shows "\<exists>x \<in> set ys. f x = f r"
proof -
  have "f r \<in> set (map f xs)" using assms(2) by simp
  then have "f r \<in> set (map f ys)" using assms(1) by simp
  then show ?thesis by auto
qed

lemma map_update_key:
  assumes "x \<in> set (map (\<lambda>r. if k r = s then g r else r) xs)" and "k x = s"
    and "\<And>r. k (g r) = k r"
  shows "\<exists>y \<in> set xs. x = g y"
proof -
  from assms(1) obtain y where y: "y \<in> set xs" "x = (if k y = s then g y else y)"
    by auto
  show ?thesis
  proof (cases "k y = s")
    case True
    with y show ?thesis by auto
  next
    case False
    with y assms(2) show ?thesis by simp
  qed
qed

text \<open>
  C4: when \<open>validate_session\<close> with \<open>prolong=True\<close> returns \<open>Valid\<close>, the flag it
  returns is the \<open>remember_me\<close> of a stored row with both secrets. If the flag is unset,
  the session's row exists in the new table and every row of that session id expires at
  the (second) reading of the clock plus 30 minutes. If the flag is set, the column
  \<open>expires_at\<close> is the same in every row, and after any further calls with
  \<open>prolong=True\<close> for these secrets, whatever the clocks read and whatever raises, the
  pairs of session id and expiry in the table are those before the calls, or those
  without the session's rows once the session has expired and been deleted.
\<close>

theorem validate_session_renewal:
  assumes "validate_session e db sid tok True = (Valid u l m rm ex, db')"
  shows "(\<exists>r \<in> set db. session_id r = sid \<and> access_token r = tok \<and> remember_me r = rm) \<and>
         (\<not> rm \<longrightarrow>
            (\<exists>x \<in> set db'. session_id x = sid) \<and>
            (\<forall>x \<in> set db'. session_id x = sid \<longrightarrow>
               expires_at x = now_later e + 30 * 60 * 1000000)) \<and>
         (rm \<longrightarrow>
            map expires_at db' = map expires_at db \<and>
            (\<forall>es. map (\<lambda>x. (session_id x, expires_at x)) (validate_repeatedly es db sid tok) =
                    map (\<lambda>x. (session_id x, expires_at x)) db \<or>
                  map (\<lambda>x. (session_id x, expires_at x)) (validate_repeatedly es db sid tok) =
                    map (\<lambda>x. (session_id x, expires_at x))
                      (filter (\<lambda>x. session_id x \<noteq> sid) db)))"
proof -
  from validate_session_valid(1) [OF assms] obtain r where
    r: "find (\<lambda>x. session_id x = sid \<and> access_token x = tok) db = Some r"
    and rm: "remember_me r = rm" by blast
  note eq = validate_session_valid(2) [OF assms]
  from r have rin: "r \<in> set db" "session_id r = sid" "access_token r = tok"
    by (auto simp: find_Some_iff)
  have a: "\<exists>r \<in> set db. session_id r = sid \<and> access_token r = tok \<and> remember_me r = rm"
    using rin rm by blast
  have b1: "\<exists>x \<in> set db'. session_id x = sid"
  proof -
    have "map session_id db' = map session_id db"
      unfolding eq by (simp add: comp_def if_distrib cong: if_cong)
    from same_keys_member [OF this rin(1)] show ?thesis
      unfolding rin(2) .
  qed
  have b2: "\<forall>x \<in> set db'. session_id x = sid \<longrightarrow>
               expires_at x = now_later e + 30 * 60 * 1000000" if "\<not> rm"
  proof (intro ballI impI)
    fix x assume "x \<in> set db'" and x: "session_id x = sid"
    then have "\<exists>y \<in> set db. x = y\<lparr>last_activity := sqlite_datetime (sql_now e),
                   expires_at := (if True \<and> \<not> rm then now_later e + timedelta_minutes 30
                                  else expires_at y)\<rparr>"
      unfolding eq by (rule map_update_key) simp
    then obtain y where "x = y\<lparr>last_activity := sqlite_datetime (sql_now e),
                   expires_at := (if True \<and> \<not> rm then now_later e + timedelta_minutes 30
                                  else expires_at y)\<rparr>"
      by blast
    then have "expires_at x = (if True \<and> \<not> rm then now_later e + timedelta_minutes 30
                                  else expires_at y)"
      by simp
    with that show "expires_at x = now_later e + 30 * 60 * 1000000"
      by (simp add: timedelta_minutes_def)
  qed
  have c: "map expires_at db' = map expires_at db" if "rm"
    unfolding eq using that by (simp add: comp_def if_distrib cong: if_cong)
  have d: "map (\<lambda>x. (session_id x, expires_at x)) (validate_repeatedly es db sid tok) =
             map (\<lambda>x. (session_id x, expires_at x)) db \<or>
           map (\<lambda>x. (session_id x, expires_at x)) (validate_repeatedly es db sid tok) =
             map (\<lambda>x. (session_id x, expires_at x)) (filter (\<lambda>x. session_id x \<noteq> sid) db)"
    if "rm" for es
  proof -
    from rm that have "remember_me r" by simp
    then show ?thesis by (rule validate_repeatedly_remember [OF r])
  qed
  show ?thesis
    apply (intro conjI impI allI)
    subgoal by (rule a)
    subgoal by (rule b1)
    subgoal by (rule b2)
    subgoal by (rule c)
    subgoal by (rule d)
    done
qed

theorem validate_session_renewal_witness:
  "validate_session (env_at t0) [sample_row ''s1'' ''k1'' 7 (t0 + 5) False] ''s1'' ''k1'' True =
     (Valid 7 ''ann'' ''a@b.com'' False (t0 + 5),
      [(sample_row ''s1'' ''k1'' 7 (t0 + 5) False)
         \<lparr>last_activity := sqlite_datetime t0, expires_at := t0 + 1800000000\<rparr>]) \<and>
   (\<exists>x \<in> set [(sample_row ''s1'' ''k1'' 7 (t0 + 5) False)
         \<lparr>last_activity := sqlite_datetime t0, expires_at := t0 + 1800000000\<rparr>].
      session_id x = ''s1'')"
proof -
  let ?db = "[sample_row ''s1'' ''k1'' 7 (t0 + 5) False]"
  let ?db' = "[(sample_row ''s1'' ''k1'' 7 (t0 + 5) False)
         \<lparr>last_activity := sqlite_datetime t0, expires_at := t0 + 1800000000\<rparr>]"
  have c: "validate_session (env_at t0) ?db ''s1'' ''k1'' True =
     (Valid 7 ''ann'' ''a@b.com'' False (t0 + 5), ?db')"
    by (simp add: validate_session_cases env_at_def sample_row_def timedelta_minutes_def)
  from validate_session_renewal [OF c]
  have "\<exists>x \<in> set ?db'. session_id x = ''s1''" by blast
  with c show ?thesis by (rule conjI)
qed

subsection \<open>The sweep compares texts\<close>

lemma text_lt_same_length:
  assumes "length a = length b"
  shows "text_lt (a @ x # u) (b @ y # v) =
           (if a = b then (if x = y then text_lt u v else (of_char x :: nat) < of_char y)
            else text_lt a b)"
  using assms by (induction a b rule: list_induct2) auto

lemma text_lt_irrefl: "\<not> text_lt a a"
  by (induction a) simp_all

lemma length_date_text: "length (date_text t) = 10"
  by (simp add: date_text_def pad4_def pad2_def split: prod.splits)

text \<open>
  The text of \<open>isoformat\<close> is below the text of \<open>datetime('now')\<close> exactly when its
  date is: on the same date the \<open>T\<close> is above the space, whatever the times are.
\<close>

lemma isoformat_lt_sqlite:
  "text_lt (isoformat a) (sqlite_datetime b) = text_lt (date_text a) (date_text b)"
proof -
  have len: "length (date_text a) = length (date_text b)"
    by (simp add: length_date_text)
  have "text_lt (date_text a @ CHR ''T'' # u) (date_text b @ CHR '' '' # v) =
          text_lt (date_text a) (date_text b)" for u v
    unfolding text_lt_same_length [OF len] by (simp add: text_lt_irrefl)
  then show ?thesis
    by (simp add: isoformat_def sqlite_datetime_def)
qed

lemma cleanup_expired_sessions_cases:
  "cleanup_expired_sessions e db =
     (if db_fault e = FailDelete then (0, db)
      else if db_fault e = FailCommit
      then (int (length db) -
              int (length (filter (\<lambda>r. \<not> text_lt (date_text (expires_at r))
                                                  (date_text (sql_now e))) db)), db)
      else (int (length db) -
              int (length (filter (\<lambda>r. \<not> text_lt (date_text (expires_at r))
                                                  (date_text (sql_now e))) db)),
            filter (\<lambda>r. \<not> text_lt (date_text (expires_at r)) (date_text (sql_now e))) db))"
  by (simp add: cleanup_expired_sessions_def delete_expired_def commit_def Let_def
      isoformat_lt_sqlite)

subsection \<open>Claim about \<open>cleanup_expired_sessions\<close>\<close>

text \<open>
  C8 says that no row whose expiry is before the time of the call remains. The code does
  not do that: at 2026-11-03 15:00:00 UTC, on a host whose local time is UTC, with one
  row that expired on 2026-11-02 at 23:59:59.999999 and one that expired on 2026-11-03 at
  10:00:00, the sweep deletes the first row only, returns 1, and the row that expired five
  hours before the call remains. The second expiry is the one \<open>create_session\<close> writes
  at 09:00:00 of that day for a session without \<open>remember_me\<close>.
\<close>

theorem cleanup_expired_sessions_keeps_expired_row:
  "cleanup_expired_sessions (env_at t0)
     [sample_row ''s1'' ''k1'' 7 63929260799999999 False,
      sample_row ''s2'' ''k2'' 8 63929296800000000 False] =
     (1, [sample_row ''s2'' ''k2'' 8 63929296800000000 False]) \<and>
   expires_at (sample_row ''s2'' ''k2'' 8 63929296800000000 False) < sql_now (env_at t0) \<and>
   isoformat (expires_at (sample_row ''s2'' ''k2'' 8 63929296800000000 False)) =
     ''2026-11-03T10:00:00'' \<and>
   sqlite_datetime (sql_now (env_at t0)) = ''2026-11-03 15:00:00'' \<and>
   expires_at (new_row (env_at 63929293200000000) 8 ''ann'' ''a@b.com''
                 (request_with (Some ''true'')) False) = 63929296800000000"
  by (simp add: cleanup_expired_sessions_def delete_expired_def commit_def Let_def
      env_at_def t0_def sample_row_def isoformat_def sqlite_datetime_def date_text_def
      time_text_def ord2ymd_def pad2_def pad4_def pad6_def digit_def days_before_month_def
      days_in_month_def new_row_simps timedelta_minutes_def)


end
